theory Spec2Isabelle
  imports Complex_Main
begin

section \<open>House orientation: vector math, bearings and nearest-line search\<close>

text \<open>
  The three Python programs (\<^verbatim>\<open>house_orientation.py\<close>, \<^verbatim>\<open>house_orientation_v2.py\<close>,
  \<^verbatim>\<open>improved_orientation.py\<close>) compute on Python floats. The embedding takes a finite
  float as the real number it denotes; infinities and NaN are not modelled. Rounding is
  modelled where it decides the range of a result: the additions of the angle
  normalisation (inside the float \<^verbatim>\<open>%\<close> and in \<^verbatim>\<open>a += 360.0\<close>) round to the nearest
  double, which is what lets a normalised angle be exactly 360. The other operations
  are exact. The real \<open>0\<close> stands for the float \<open>+0.0\<close>, which is the value of the
  literal \<^verbatim>\<open>0.0\<close> and of every difference \<^verbatim>\<open>x - x\<close>; the one place where the sign
  of a float zero decides a result (\<^verbatim>\<open>math.atan2\<close> at the origin) is written out.
\<close>

type_synonym point = "real \<times> real"

subsection \<open>Python arithmetic on floats and ints\<close>

definition round_half_even :: "real \<Rightarrow> int" where
  \<comment> \<open>to the nearest integer, an exact tie going to the even one\<close>
  "round_half_even y =
     (let f = \<lfloor>y\<rfloor>; r = y - of_int f in
      if r < 1 / 2 then f else if 1 / 2 < r then f + 1
      else if even f then f else f + 1)"

definition round_double :: "real \<Rightarrow> real" where
  \<comment> \<open>The rounding of a float addition: to the nearest IEEE 754 double (53-bit
      significand, least exponent -1022), ties to even. Overflow is not modelled; the
      sums rounded here are below 720.\<close>
  "round_double x =
     (if x = 0 then 0
      else
        (let e = \<lfloor>log 2 \<bar>x\<bar>\<rfloor>;
             ulp = 2 powr (of_int (max e (- 1022)) - 52)
         in of_int (round_half_even (x / ulp)) * ulp))"

definition fmod :: "real \<Rightarrow> real \<Rightarrow> real" where
  \<comment> \<open>C's \<^verbatim>\<open>fmod\<close>, for \<open>m \<noteq> 0\<close>: exact, with the sign of the dividend.\<close>
  "fmod a m =
     (let r = \<bar>a\<bar> - \<bar>m\<bar> * of_int \<lfloor>\<bar>a\<bar> / \<bar>m\<bar>\<rfloor>
      in if a < 0 then - r else r)"

definition float_mod :: "real \<Rightarrow> real \<Rightarrow> real" where
  \<comment> \<open>Python's \<^verbatim>\<open>a % m\<close> on floats, for \<open>m \<noteq> 0\<close>, as CPython computes it:
      \<^verbatim>\<open>mod = fmod(a, m)\<close>, then \<^verbatim>\<open>mod += m\<close> when \<^verbatim>\<open>mod\<close> is non-zero and its sign
      differs from the divisor's. That addition is a float addition and rounds. Every
      call in the sources has the literal divisor 360.\<close>
  "float_mod a m =
     (let r = fmod a m in
      if r \<noteq> 0 then (if (m < 0) \<noteq> (r < 0) then round_double (r + m) else r)
      else 0)"

definition float_floordiv :: "real \<Rightarrow> real \<Rightarrow> real" where
  \<comment> \<open>Python's \<^verbatim>\<open>a // m\<close> on floats, for a divisor \<open>m > 0\<close>.\<close>
  "float_floordiv a m = of_int \<lfloor>a / m\<rfloor>"

definition int_of_float :: "real \<Rightarrow> int" where
  \<comment> \<open>Python's \<^verbatim>\<open>int(x)\<close> on a float: truncation toward zero.\<close>
  "int_of_float x = (if 0 \<le> x then \<lfloor>x\<rfloor> else \<lceil>x\<rceil>)"

definition degrees :: "real \<Rightarrow> real" where
  \<comment> \<open>\<^verbatim>\<open>math.degrees\<close>\<close>
  "degrees r = r * (180 / pi)"

definition atan2 :: "real \<Rightarrow> real \<Rightarrow> real" where
  \<comment> \<open>\<^verbatim>\<open>math.atan2(y, x)\<close>: the angle of the point \<open>(x, y)\<close>, in \<open>(-pi, pi]\<close>; at the
      origin \<^verbatim>\<open>atan2(+0.0, +0.0)\<close> is \<open>0\<close>.\<close>
  "atan2 y x =
     (if 0 < x then arctan (y / x)
      else if x < 0 then (if 0 \<le> y then arctan (y / x) + pi else arctan (y / x) - pi)
      else if 0 < y then pi / 2
      else if y < 0 then - (pi / 2)
      else 0)"

definition atan2_neg :: "real \<Rightarrow> real \<Rightarrow> real" where
  \<comment> \<open>The call \<^verbatim>\<open>math.atan2(dx, -dy)\<close>. Negating the float \<open>+0.0\<close> gives \<open>-0.0\<close>, and
      \<^verbatim>\<open>math.atan2(0.0, -0.0)\<close> is \<open>pi\<close>, not \<open>0\<close>: the zero vector is the one input on
      which the call differs from \<open>atan2 dx (- dy)\<close> over the reals.\<close>
  "atan2_neg dx dy = (if dx = 0 \<and> dy = 0 then pi else atan2 dx (- dy))"

subsection \<open>Math helpers of \<^verbatim>\<open>house_orientation.py\<close>\<close>

definition normalize_angle_deg :: "real \<Rightarrow> real" where
  "normalize_angle_deg a =
     (let a = float_mod a 360 in
      if a < 0 then round_double (a + 360) else a)"

definition bearing_from_vector :: "real \<Rightarrow> real \<Rightarrow> real" where
  "bearing_from_vector dx dy =
     (let rad = atan2_neg dx dy;
          deg = degrees rad
      in normalize_angle_deg deg)"

definition dirs :: "string list" where
  "dirs = [''N'', ''NE'', ''E'', ''SE'', ''S'', ''SW'', ''W'', ''NW'']"

definition compass_8 :: "real \<Rightarrow> string" where
  \<comment> \<open>The index is in \<open>{0..7}\<close> (Python's \<^verbatim>\<open>%\<close> on ints takes the sign of the divisor),
      so \<^verbatim>\<open>dirs[idx]\<close> never raises.\<close>
  "compass_8 bearing_deg =
     (let idx = int_of_float (float_floordiv (bearing_deg + 22.5) 45) mod 8
      in dirs ! nat idx)"

definition midpoint :: "point \<Rightarrow> point \<Rightarrow> point" where
  "midpoint p1 p2 = ((fst p1 + fst p2) / 2, (snd p1 + snd p2) / 2)"

definition subtract :: "point \<Rightarrow> point \<Rightarrow> point" where
  "subtract p1 p0 = (fst p1 - fst p0, snd p1 - snd p0)"

definition dot :: "point \<Rightarrow> point \<Rightarrow> real" where
  "dot u v = fst u * fst v + snd u * snd v"

definition perp :: "point \<Rightarrow> point" where
  "perp v = (- snd v, fst v)"

definition scale :: "point \<Rightarrow> real \<Rightarrow> point" where
  "scale v s = (fst v * s, snd v * s)"

definition hypot :: "real \<Rightarrow> real \<Rightarrow> real" where
  \<comment> \<open>\<^verbatim>\<open>math.hypot\<close>\<close>
  "hypot x y = sqrt (x\<^sup>2 + y\<^sup>2)"

definition unit :: "point \<Rightarrow> point" where
  "unit v =
     (let n = hypot (fst v) (snd v)
      in if n \<noteq> 0 then (fst v / n, snd v / n) else (0, 0))"

subsection \<open>Interaction helper and core workflows of \<^verbatim>\<open>house_orientation.py\<close>\<close>

datatype error =
    RuntimeError nat nat  \<comment> \<open>\<^verbatim>\<open>RuntimeError(f"Expected {n} points, got {len(pts)}.")\<close>\<close>
  | ValueError string
  | AttributeError        \<comment> \<open>a method call on \<^verbatim>\<open>None\<close>\<close>

definition get_points :: "point list \<Rightarrow> nat \<Rightarrow> error + point list" where
  \<comment> \<open>The first argument is what \<^verbatim>\<open>plt.ginput(n, timeout=-1)\<close> returned; drawing the
      points on the axes is not modelled.\<close>
  "get_points pts n =
     (if length pts \<noteq> n then Inl (RuntimeError n (length pts)) else Inr pts)"

definition workflow_vector :: "point list \<Rightarrow> error + (real \<times> string)" where
  "workflow_vector clicks =
     (case get_points clicks 2 of
        Inl e \<Rightarrow> Inl e
      | Inr pts \<Rightarrow>
          (let p0 = pts ! 0; p1 = pts ! 1;
               v = subtract p1 p0;
               b = bearing_from_vector (fst v) (snd v);
               c = compass_8 b
           in Inr (b, c)))"

text \<open>
  The locals of \<^verbatim>\<open>workflow_frontage\<close>, each as a function of the four clicked points
  \<open>h0 = house_pts[0]\<close>, \<open>h1 = house_pts[1]\<close>, \<open>s0 = street_pts[0]\<close>, \<open>s1 = street_pts[1]\<close>.
\<close>

definition n_left :: "point \<Rightarrow> point \<Rightarrow> point" where
  "n_left h0 h1 =
     (let f = subtract h1 h0;
          f_u = unit f
      in unit (perp f_u))"

definition n_right :: "point \<Rightarrow> point \<Rightarrow> point" where
  "n_right h0 h1 = unit (scale (n_left h0 h1) (- 1))"

definition to_street :: "point \<Rightarrow> point \<Rightarrow> point \<Rightarrow> point \<Rightarrow> point" where
  "to_street h0 h1 s0 s1 =
     (let fm = midpoint h0 h1;
          sm = midpoint s0 s1
      in unit (subtract sm fm))"

definition pick_normal :: "point \<Rightarrow> point \<Rightarrow> point \<Rightarrow> point" where
  \<comment> \<open>\<^verbatim>\<open>n_left if dot(n_left, to_street) >= dot(n_right, to_street) else n_right\<close>, as a
      function of the vectors bound to the two names.\<close>
  "pick_normal nl nr ts = (if dot nl ts \<ge> dot nr ts then nl else nr)"

definition n_face :: "point \<Rightarrow> point \<Rightarrow> point \<Rightarrow> point \<Rightarrow> point" where
  "n_face h0 h1 s0 s1 = pick_normal (n_left h0 h1) (n_right h0 h1) (to_street h0 h1 s0 s1)"

definition n_face_swapped :: "point \<Rightarrow> point \<Rightarrow> point \<Rightarrow> point \<Rightarrow> point" where
  \<comment> \<open>Not in the source: the selection of \<open>n_face\<close> with the two names exchanged (the name
      \<^verbatim>\<open>n_left\<close> bound to the other normal), to state the spec's label-swap property.\<close>
  "n_face_swapped h0 h1 s0 s1 =
     pick_normal (n_right h0 h1) (n_left h0 h1) (to_street h0 h1 s0 s1)"

definition workflow_frontage :: "point list \<Rightarrow> point list \<Rightarrow> error + (real \<times> string)" where
  "workflow_frontage house_clicks street_clicks =
     (case get_points house_clicks 2 of
        Inl e \<Rightarrow> Inl e
      | Inr house_pts \<Rightarrow>
          (case get_points street_clicks 2 of
             Inl e \<Rightarrow> Inl e
           | Inr street_pts \<Rightarrow>
               (let nf = n_face (house_pts ! 0) (house_pts ! 1) (street_pts ! 0) (street_pts ! 1);
                    b = bearing_from_vector (fst nf) (snd nf);
                    c = compass_8 b
                in Inr (b, c))))"

subsection \<open>\<^verbatim>\<open>house_orientation_v2.py\<close>: nearest OCR road label\<close>

definition bearing_from_vec :: "real \<Rightarrow> real \<Rightarrow> real" where
  "bearing_from_vec dx dy = float_mod (degrees (atan2_neg dx dy)) 360"

definition compass8 :: "real \<Rightarrow> string" where
  "compass8 b = dirs ! nat (int_of_float (float_floordiv (b + 22.5) 45) mod 8)"

definition np_mean :: "point list \<Rightarrow> point" where
  \<comment> \<open>\<^verbatim>\<open>np.mean(pts, axis=0)\<close> on a non-empty list of points\<close>
  "np_mean pts =
     (sum_list (map fst pts) / real (length pts), sum_list (map snd pts) / real (length pts))"

definition np_norm :: "point \<Rightarrow> real" where
  \<comment> \<open>\<^verbatim>\<open>np.linalg.norm\<close> of a 2-vector\<close>
  "np_norm v = sqrt ((fst v)\<^sup>2 + (snd v)\<^sup>2)"

fun min_key :: "('a \<Rightarrow> real) \<Rightarrow> 'a \<Rightarrow> 'a list \<Rightarrow> 'a" where
  \<comment> \<open>Python's \<^verbatim>\<open>min(xs, key=key)\<close> after its first item: a later item replaces the
      current one only when its key is strictly smaller.\<close>
  "min_key key best [] = best"
| "min_key key best (x # xs) = min_key key (if key x < key best then x else best) xs"

definition find_orientation ::
  "(string \<times> point) list \<Rightarrow> string \<Rightarrow> error + (string \<times> real \<times> string)" where
  \<comment> \<open>\<open>texts\<close> is what \<^verbatim>\<open>get_text_boxes\<close> returned and \<open>target_label\<close> is
      \<^verbatim>\<open>str(target_label)\<close>; the result is what the final \<^verbatim>\<open>print\<close> shows: the compass
      label, the bearing and the chosen road word.\<close>
  "find_orientation texts target_label =
     (let house_points = map snd (filter (\<lambda>tp. fst tp = target_label) texts) in
      if house_points = [] then Inl (ValueError (''Could not find label '' @ target_label))
      else
        (let house = np_mean house_points;
             road_candidates = filter (\<lambda>tp. length (fst tp) > 4) texts
         in case road_candidates of
              [] \<Rightarrow> Inl (ValueError ''No road label detected'')
            | r # rs \<Rightarrow>
                (let (road, road_point) =
                       min_key (\<lambda>tp. np_norm (subtract (snd tp) house)) r rs;
                     dx = fst road_point - fst house;
                     dy = snd road_point - snd house;
                     b = bearing_from_vec dx dy;
                     dir8 = compass8 b
                 in Inr (dir8, b, road))))"

subsection \<open>\<^verbatim>\<open>improved_orientation.py\<close>: bearing to the nearest road\<close>

definition bearing_from_point_to_point :: "real \<Rightarrow> real \<Rightarrow> real \<Rightarrow> real \<Rightarrow> real" where
  "bearing_from_point_to_point px py qx qy =
     (let dx = qx - px; dy = qy - py;
          theta = degrees (atan2 dy dx)
      in float_mod (90 - theta) 360)"

definition bearing_to_compass :: "real \<Rightarrow> string" where
  "bearing_to_compass bearing_deg =
     (let idx = int_of_float (float_floordiv (bearing_deg + 22.5) 45) mod 8
      in dirs ! nat idx)"

definition py_round :: "real \<Rightarrow> nat \<Rightarrow> real" where
  \<comment> \<open>Python's \<^verbatim>\<open>round(x, ndigits)\<close>: to the nearest multiple of \<open>10 ^ - ndigits\<close>, an exact
      tie going to the even one.\<close>
  "py_round x ndigits = of_int (round_half_even (x * 10 ^ ndigits)) / 10 ^ ndigits"

datatype line = LineString point point "point list"
  \<comment> \<open>a shapely \<^verbatim>\<open>LineString\<close>: its coordinate sequence has at least two points\<close>

fun coords :: "line \<Rightarrow> point list" where
  "coords (LineString a b rest) = a # b # rest"

fun map_line :: "(point \<Rightarrow> point) \<Rightarrow> line \<Rightarrow> line" where
  \<comment> \<open>\<^verbatim>\<open>LineString([f(x, y) for (x, y) in road.coords])\<close>\<close>
  "map_line f (LineString a b rest) = LineString (f a) (f b) (map f rest)"

fun fetch_nearby_roads :: "point list option list \<Rightarrow> line list" where
  \<comment> \<open>The loop of \<^verbatim>\<open>fetch_nearby_roads\<close> over the elements of the Overpass answer, each
      with its \<^verbatim>\<open>geometry\<close> as \<open>(lon, lat)\<close> pairs, or \<open>None\<close> when the key is absent.\<close>
  "fetch_nearby_roads [] = []"
| "fetch_nearby_roads (None # els) = fetch_nearby_roads els"
| "fetch_nearby_roads (Some (a # b # rest) # els) = LineString a b rest # fetch_nearby_roads els"
| "fetch_nearby_roads (Some _ # els) = fetch_nearby_roads els"

record road_result =
  lat :: real
  lon :: real
  bearing_deg :: "real option"
  compass :: "string option"
  distance_to_road_m :: "real option"
  note_str :: "string option"  \<comment> \<open>the key \<^verbatim>\<open>note\<close>\<close>

definition below_best :: "real \<Rightarrow> real option \<Rightarrow> bool" where
  \<comment> \<open>\<^verbatim>\<open>d < best_dist\<close>, with \<open>None\<close> for the initial \<^verbatim>\<open>float("inf")\<close>\<close>
  "below_best d best_dist = (case best_dist of None \<Rightarrow> True | Some bd \<Rightarrow> d < bd)"

fun nearest_road_loop ::
  "(point \<Rightarrow> point) \<Rightarrow> (point \<Rightarrow> line \<Rightarrow> real) \<Rightarrow> point \<Rightarrow> line list \<Rightarrow>
   line option \<times> real option \<Rightarrow> line option \<times> real option" where
  \<comment> \<open>The \<^verbatim>\<open>for road_ll in roads\<close> loop, on the state \<open>(best, best_dist)\<close>.\<close>
  "nearest_road_loop to_3857_xy distance p [] (best, best_dist) = (best, best_dist)"
| "nearest_road_loop to_3857_xy distance p (road_ll # roads) (best, best_dist) =
     (let road_xy = map_line to_3857_xy road_ll;
          d = distance p road_xy
      in if below_best d best_dist
         then nearest_road_loop to_3857_xy distance p roads (Some road_xy, Some d)
         else nearest_road_loop to_3857_xy distance p roads (best, best_dist))"

definition nearest_road_bearing_from_address ::
  "(point \<Rightarrow> point) \<Rightarrow> (point \<Rightarrow> line \<Rightarrow> real) \<Rightarrow> (point \<Rightarrow> line \<Rightarrow> point) \<Rightarrow>
   point \<Rightarrow> line list \<Rightarrow> error + road_result" where
  \<comment> \<open>The function from the point where \<^verbatim>\<open>geocode\<close> has returned \<open>(lon, lat)\<close> and
      \<^verbatim>\<open>fetch_nearby_roads\<close> has returned \<open>roads\<close>. The libraries are parameters:
      \<open>to_3857_xy\<close> is the pyproj transform, \<open>distance p l\<close> is shapely's
      \<^verbatim>\<open>p.distance(l)\<close> and \<open>nearest p l\<close> is \<^verbatim>\<open>l.interpolate(l.project(p))\<close>.\<close>
  "nearest_road_bearing_from_address to_3857_xy distance nearest lonlat roads =
     (let lon = fst lonlat; lat = snd lonlat in
      if roads = [] then
        Inr \<lparr>lat = lat, lon = lon, bearing_deg = None, compass = None,
             distance_to_road_m = None, note_str = Some ''No roads found nearby''\<rparr>
      else
        (let p = to_3857_xy (lon, lat);
             (best, best_dist) = nearest_road_loop to_3857_xy distance p roads (None, None)
         in case (best, best_dist) of
              (Some best_line, Some bd) \<Rightarrow>
                (let q = nearest p best_line;
                     bearing = bearing_from_point_to_point (fst p) (snd p) (fst q) (snd q)
                 in Inr \<lparr>lat = lat, lon = lon, bearing_deg = Some (py_round bearing 2),
                         compass = Some (bearing_to_compass bearing),
                         distance_to_road_m = Some (py_round bd 2), note_str = None\<rparr>)
            | _ \<Rightarrow> Inl AttributeError))"

subsection \<open>The shapely operations on a point and a polyline\<close>

definition euclid :: "point \<Rightarrow> point \<Rightarrow> real" where
  "euclid p q = hypot (fst q - fst p) (snd q - snd p)"

definition foot_param :: "point \<Rightarrow> point \<Rightarrow> point \<Rightarrow> real" where
  \<comment> \<open>For \<open>a \<noteq> b\<close>: the parameter \<open>t\<close> at which \<open>a + t * (b - a)\<close> is the foot of the
      perpendicular from \<open>p\<close> to the line through \<open>a\<close> and \<open>b\<close>.\<close>
  "foot_param p a b =
     (let d = subtract b a in dot (subtract p a) d / dot d d)"

definition along :: "point \<Rightarrow> point \<Rightarrow> real \<Rightarrow> point" where
  "along a b t = (fst a + t * (fst b - fst a), snd a + t * (snd b - snd a))"

definition segment_nearest :: "point \<Rightarrow> point \<Rightarrow> point \<Rightarrow> point" where
  \<comment> \<open>Modelled from the spec: shapely's nearest point on one segment is not in the
      sources; section 4.4 step 3 gives it as the orthogonal projection if it falls on
      the segment, else the nearer endpoint.\<close>
  "segment_nearest p a b =
     (if a = b then a
      else
        (let t = foot_param p a b in
         if 0 \<le> t \<and> t \<le> 1 then along a b t
         else if euclid p a \<le> euclid p b then a else b))"

definition segment_distance :: "point \<Rightarrow> point \<Rightarrow> point \<Rightarrow> real" where
  \<comment> \<open>Modelled from the spec: shapely's distance is not in the sources; section 4.4
      step 1 gives the distance to a segment as the distance to the perpendicular foot
      when the foot falls within the segment, and the endpoint distance otherwise.\<close>
  "segment_distance p a b =
     (if a = b then euclid p a
      else
        (let t = foot_param p a b in
         if 0 \<le> t \<and> t \<le> 1 then euclid p (along a b t)
         else min (euclid p a) (euclid p b)))"

fun polyline_distance :: "point \<Rightarrow> point \<Rightarrow> point \<Rightarrow> point list \<Rightarrow> real" where
  "polyline_distance p a b [] = segment_distance p a b"
| "polyline_distance p a b (c # rest) =
     min (segment_distance p a b) (polyline_distance p b c rest)"

fun polyline_nearest :: "point \<Rightarrow> point \<Rightarrow> point \<Rightarrow> point list \<Rightarrow> point" where
  "polyline_nearest p a b [] = segment_nearest p a b"
| "polyline_nearest p a b (c # rest) =
     (let q = segment_nearest p a b;
          q' = polyline_nearest p b c rest
      in if euclid p q' < euclid p q then q' else q)"

fun distance :: "point \<Rightarrow> line \<Rightarrow> real" where
  \<comment> \<open>Modelled from the spec: \<^verbatim>\<open>Point.distance(LineString)\<close> of shapely is not in the
      sources; section 4.4 step 1 gives it as the minimum Euclidean distance from the
      point to the line taken as a connected polyline.\<close>
  "distance p (LineString a b rest) = polyline_distance p a b rest"

fun nearest_point :: "point \<Rightarrow> line \<Rightarrow> point" where
  \<comment> \<open>Modelled from the spec: \<^verbatim>\<open>line.interpolate(line.project(p))\<close> of shapely is not in
      the sources; section 4.4 step 3 gives it as the nearest point on the selected
      line.\<close>
  "nearest_point p (LineString a b rest) = polyline_nearest p a b rest"

section \<open>Properties\<close>

subsection \<open>Normalisation of angles\<close>

lemma round_half_even_nonneg:
  assumes "0 \<le> y"
  shows "0 \<le> round_half_even y"
proof -
  from assms have "0 \<le> \<lfloor>y\<rfloor>" by simp
  then show ?thesis
    by (simp add: round_half_even_def Let_def)
qed

lemma round_double_nonneg:
  assumes "0 \<le> x"
  shows "0 \<le> round_double x"
proof (cases "x = 0")
  case True
  then show ?thesis by (simp add: round_double_def)
next
  case False
  define ulp :: real where "ulp = 2 powr (of_int (max \<lfloor>log 2 \<bar>x\<bar>\<rfloor> (- 1022)) - 52)"
  have "0 < ulp" unfolding ulp_def by simp
  with assms have "0 \<le> x / ulp" by simp
  then have "0 \<le> round_half_even (x / ulp)" by (rule round_half_even_nonneg)
  with \<open>0 < ulp\<close> have "0 \<le> of_int (round_half_even (x / ulp)) * ulp" by simp
  with False show ?thesis
    by (simp add: round_double_def Let_def ulp_def)
qed

lemma remainder_range:
  assumes "0 < m"
  shows "0 \<le> x - m * of_int \<lfloor>x / m\<rfloor> \<and> x - m * of_int \<lfloor>x / m\<rfloor> < m"
proof -
  have lo: "of_int \<lfloor>x / m\<rfloor> \<le> x / m" by (rule of_int_floor_le)
  have hi: "x / m < of_int \<lfloor>x / m\<rfloor> + 1" by linarith
  have "m * of_int \<lfloor>x / m\<rfloor> \<le> m * (x / m)"
    using lo assms by (intro mult_left_mono) simp_all
  with assms have "m * of_int \<lfloor>x / m\<rfloor> \<le> x" by simp
  moreover have "m * (x / m) < m * (of_int \<lfloor>x / m\<rfloor> + 1)"
    using hi assms by (intro mult_strict_left_mono) simp_all
  with assms have "x < m * (of_int \<lfloor>x / m\<rfloor> + 1)" by simp
  ultimately show ?thesis
    by (simp add: algebra_simps)
qed

lemma fmod_small:
  assumes "0 \<le> b" "b < m"
  shows "fmod b m = b"
proof -
  from assms have m: "0 < m" by simp
  from assms m have "0 \<le> b / m" "b / m < 1" by simp_all
  then have "\<lfloor>b / m\<rfloor> = 0" by (simp add: floor_eq_iff)
  with assms m show ?thesis by (simp add: fmod_def Let_def)
qed

lemma fmod_tiny_negative:
  assumes "- m < a" "a < 0"
  shows "fmod a m = a"
proof -
  define d where "d = \<bar>a\<bar>"
  from assms have d: "0 \<le> d" "d < m" "a = - d" by (simp_all add: d_def)
  then have m: "0 < m" by simp
  from d m have "0 \<le> d / m" "d / m < 1" by simp_all
  then have "\<lfloor>d / m\<rfloor> = 0" by (simp add: floor_eq_iff)
  with assms m show ?thesis
    by (simp add: fmod_def Let_def d_def [symmetric] d(3))
qed

lemma fmod_negative_range:
  assumes "0 < m" "a < 0"
  shows "- m < fmod a m \<and> fmod a m \<le> 0"
  using remainder_range [OF assms(1), of "\<bar>a\<bar>"] assms
  by (simp add: fmod_def Let_def)

lemma fmod_nonneg:
  assumes "0 < m" "0 \<le> a"
  shows "0 \<le> fmod a m"
  using remainder_range [OF assms(1), of "\<bar>a\<bar>"] assms
  by (simp add: fmod_def Let_def)

lemma float_mod_small:
  assumes "0 \<le> b" "b < m"
  shows "float_mod b m = b"
  using assms by (simp add: float_mod_def fmod_small Let_def)

lemma float_mod_nonneg:
  assumes "0 < m"
  shows "0 \<le> float_mod a m"
proof (cases "a < 0")
  case True
  from fmod_negative_range [OF assms True] have "0 \<le> fmod a m + m" by simp
  then have "0 \<le> round_double (fmod a m + m)" by (rule round_double_nonneg)
  with assms fmod_negative_range [OF assms True] show ?thesis
    by (simp add: float_mod_def Let_def)
next
  case False
  then have "0 \<le> fmod a m" using fmod_nonneg [OF assms, of a] by simp
  with assms show ?thesis
    by (simp add: float_mod_def Let_def)
qed

lemma normalize_angle_deg_eq: "normalize_angle_deg a = float_mod a 360"
  using float_mod_nonneg [of 360 a] by (simp add: normalize_angle_deg_def Let_def)

lemma round_half_even_just_below:
  assumes "even n" "- (1 / 2) \<le> f" "f < 0"
  shows "round_half_even (of_int n + f) = n"
proof -
  have fl: "\<lfloor>of_int n + f\<rfloor> = n - 1"
    using assms by (simp add: floor_eq_iff)
  have odd: "\<not> even (n - 1)" using assms(1) by simp
  show ?thesis
    unfolding round_half_even_def Let_def fl
    using assms(2,3) odd by auto
qed

lemma round_double_just_below_360:
  assumes "- (1 / 2 ^ 45) \<le> a" "a < 0"
  shows "round_double (a + 360) = 360"
proof -
  have small: "- 1 \<le> a"
    using assms(1) by (rule order_trans [rotated]) simp
  have pos: "0 < a + 360" and abs: "\<bar>a + 360\<bar> = a + 360"
    using small by simp_all
  have "\<lfloor>log 2 (a + 360)\<rfloor> = 8"
    using small assms(2) pos by (subst floor_log_eq_powr_iff) simp_all
  then have e: "\<lfloor>log 2 \<bar>a + 360\<bar>\<rfloor> = 8"
    by (simp only: abs)
  have "2 powr (- 44 :: real) = 1 / 2 powr 44"
    by (rule powr_minus_divide)
  then have ulp: "2 powr (of_int (max (8 :: int) (- 1022)) - 52) = (1 / 2 ^ 44 :: real)"
    by simp
  have half: "- (1 / 2) \<le> a * 2 ^ 44"
    using assms(1) by (simp add: field_simps)
  have neg: "a * 2 ^ 44 < 0"
    using assms(2) by (simp add: mult_neg_pos)
  have "(a + 360) / (1 / 2 ^ 44) = of_int (360 * 2 ^ 44) + a * 2 ^ 44"
    by (simp add: algebra_simps)
  moreover have "round_half_even (of_int (360 * 2 ^ 44) + a * 2 ^ 44) = 360 * 2 ^ 44"
    using half neg by (intro round_half_even_just_below) simp_all
  ultimately have "round_half_even ((a + 360) / (1 / 2 ^ 44)) = 360 * 2 ^ 44"
    by (simp only:)
  then have "of_int (round_half_even ((a + 360) / (1 / 2 ^ 44))) * (1 / 2 ^ 44) = (360 :: real)"
    by simp
  with pos show ?thesis
    by (simp only: round_double_def Let_def e ulp) simp
qed

lemma float_mod_just_below_zero:
  assumes "- (1 / 2 ^ 45) \<le> a" "a < 0"
  shows "float_mod a 360 = 360"
proof -
  have "- 360 < a"
    using assms(1) by (rule less_le_trans [rotated]) simp
  then have "fmod a 360 = a"
    using assms(2) by (intro fmod_tiny_negative) simp_all
  with assms show ?thesis
    by (simp add: float_mod_def Let_def round_double_just_below_360)
qed

text \<open>
  Claim C9 (not met by the code). \<^verbatim>\<open>normalize_angle_deg\<close> is documented to return a
  value in \<open>[0, 360)\<close>, and the claim adds that \<open>b + 360 * k\<close> is mapped back to \<open>b\<close>. For
  a negative input of magnitude at most \<open>2 ^ - 45\<close> the float \<^verbatim>\<open>%\<close> adds 360 to the
  remainder and the sum rounds to 360; the test \<^verbatim>\<open>a < 0\<close> is then false and the function
  returns 360, outside the range, where periodicity asks for a value just below 360.
\<close>

theorem normalize_angle_deg_returns_360:
  "normalize_angle_deg (- (1 / 10 ^ 20)) = 360 \<and>
   \<not> normalize_angle_deg (- (1 / 10 ^ 20)) < 360 \<and>
   normalize_angle_deg (- (1 / 2 ^ 70)) = 360"
  by (simp add: normalize_angle_deg_eq float_mod_just_below_zero)

subsection \<open>The eight-point compass\<close>

lemma int_of_float_floordiv: "int_of_float (float_floordiv x m) = \<lfloor>x / m\<rfloor>"
  by (simp add: float_floordiv_def int_of_float_def)

lemma compass_8_index: "compass_8 b = dirs ! nat (\<lfloor>(b + 22.5) / 45\<rfloor> mod 8)"
  by (simp add: compass_8_def int_of_float_floordiv)




subsection \<open>Vector math and the frontage normals\<close>

lemma hypot_eq_0_iff: "hypot x y = 0 \<longleftrightarrow> x = 0 \<and> y = 0"
  by (simp add: hypot_def sum_power2_eq_zero_iff)

lemma hypot_nonneg: "0 \<le> hypot x y"
  by (simp add: hypot_def)

lemma hypot_perp: "hypot (fst (perp v)) (snd (perp v)) = hypot (fst v) (snd v)"
  by (simp add: perp_def hypot_def add.commute)

lemma dot_perp: "dot v (perp v) = 0"
  by (simp add: dot_def perp_def)

lemma hypot_unit:
  assumes "v \<noteq> (0, 0)"
  shows "hypot (fst (unit v)) (snd (unit v)) = 1"
proof -
  define n where "n = hypot (fst v) (snd v)"
  from assms have "n \<noteq> 0"
    unfolding n_def by (cases v) (simp add: hypot_eq_0_iff)
  moreover have "0 \<le> n" unfolding n_def by (rule hypot_nonneg)
  ultimately have pos: "0 < n" by simp
  have "(fst v / n)\<^sup>2 + (snd v / n)\<^sup>2 = ((fst v)\<^sup>2 + (snd v)\<^sup>2) / n\<^sup>2"
    by (simp add: power_divide add_divide_distrib)
  also have "(fst v)\<^sup>2 + (snd v)\<^sup>2 = n\<^sup>2"
    unfolding n_def hypot_def by simp
  finally have "(fst v / n)\<^sup>2 + (snd v / n)\<^sup>2 = 1"
    using pos by simp
  then have "hypot (fst v / n) (snd v / n) = 1"
    by (simp add: hypot_def)
  with \<open>n \<noteq> 0\<close> show ?thesis
    by (simp add: unit_def Let_def n_def [symmetric])
qed

lemma unit_of_unit:
  assumes "hypot (fst v) (snd v) = 1"
  shows "unit v = v"
  using assms by (simp add: unit_def Let_def)

lemma hypot_neg: "hypot (fst (scale v (-1))) (snd (scale v (-1))) = hypot (fst v) (snd v)"
  by (simp add: scale_def hypot_def)


lemma hypot_zero_right [simp]: "hypot x 0 = \<bar>x\<bar>"
  by (simp add: hypot_def)

lemma hypot_zero_left [simp]: "hypot 0 y = \<bar>y\<bar>"
  by (simp add: hypot_def)

lemma subtract_eq_zero_iff: "subtract h1 h0 = (0, 0) \<longleftrightarrow> h0 = h1"
  by (cases h0, cases h1) (auto simp: subtract_def)

lemma hypot_pos:
  assumes "v \<noteq> (0, 0)"
  shows "0 < hypot (fst v) (snd v)"
proof -
  from assms have "hypot (fst v) (snd v) \<noteq> 0"
    by (cases v) (simp add: hypot_eq_0_iff)
  with hypot_nonneg [of "fst v" "snd v"] show ?thesis by simp
qed

lemma n_left_eq:
  assumes "h0 \<noteq> h1"
  shows "n_left h0 h1 = perp (unit (subtract h1 h0))"
proof -
  from assms have "subtract h1 h0 \<noteq> (0, 0)"
    by (simp add: subtract_eq_zero_iff)
  then have "hypot (fst (unit (subtract h1 h0))) (snd (unit (subtract h1 h0))) = 1"
    by (rule hypot_unit)
  then have "hypot (fst (perp (unit (subtract h1 h0)))) (snd (perp (unit (subtract h1 h0)))) = 1"
    by (simp only: hypot_perp)
  then have "unit (perp (unit (subtract h1 h0))) = perp (unit (subtract h1 h0))"
    by (rule unit_of_unit)
  then show ?thesis
    by (simp add: n_left_def Let_def)
qed

lemma hypot_n_left:
  assumes "h0 \<noteq> h1"
  shows "hypot (fst (n_left h0 h1)) (snd (n_left h0 h1)) = 1"
proof -
  from assms have "subtract h1 h0 \<noteq> (0, 0)"
    by (simp add: subtract_eq_zero_iff)
  then have "hypot (fst (unit (subtract h1 h0))) (snd (unit (subtract h1 h0))) = 1"
    by (rule hypot_unit)
  then show ?thesis
    by (simp only: n_left_eq [OF assms] hypot_perp)
qed

lemma n_right_eq:
  assumes "h0 \<noteq> h1"
  shows "n_right h0 h1 = scale (n_left h0 h1) (- 1)"
proof -
  have "hypot (fst (scale (n_left h0 h1) (- 1))) (snd (scale (n_left h0 h1) (- 1))) = 1"
    by (simp only: hypot_neg hypot_n_left [OF assms])
  then show ?thesis
    unfolding n_right_def by (rule unit_of_unit)
qed

lemma dot_frontage_n_left:
  assumes "h0 \<noteq> h1"
  shows "dot (subtract h1 h0) (n_left h0 h1) = 0"
  by (simp add: n_left_eq [OF assms] dot_def perp_def unit_def Let_def)

lemma dot_scale_neg: "dot u (scale v (- 1)) = - dot u v"
  by (simp add: dot_def scale_def)

lemma dot_scale_neg_left: "dot (scale v (- 1)) u = - dot v u"
  by (simp add: dot_def scale_def)

lemma scale_neg_neg: "scale (scale v (- 1)) (- 1) = v"
  by (simp add: scale_def)

text \<open>
  Claim C10. For every vector \<open>v\<close>, \<open>perp v\<close> is orthogonal to \<open>v\<close> and has the same
  Euclidean length; for a frontage with \<open>h0 \<noteq> h1\<close> the two candidate normals of
  \<^verbatim>\<open>workflow_frontage\<close> are unit vectors perpendicular to the frontage \<open>h1 - h0\<close>.
\<close>

theorem perp_orthogonal_unit_normals:
  "dot v (perp v) = 0 \<and>
   hypot (fst (perp v)) (snd (perp v)) = hypot (fst v) (snd v) \<and>
   (h0 \<noteq> h1 \<longrightarrow>
      hypot (fst (n_left h0 h1)) (snd (n_left h0 h1)) = 1 \<and>
      hypot (fst (n_right h0 h1)) (snd (n_right h0 h1)) = 1 \<and>
      dot (subtract h1 h0) (n_left h0 h1) = 0 \<and>
      dot (subtract h1 h0) (n_right h0 h1) = 0)"
proof -
  have "hypot (fst (n_right h0 h1)) (snd (n_right h0 h1)) = 1" if "h0 \<noteq> h1"
    by (simp only: n_right_eq [OF that] hypot_neg hypot_n_left [OF that])
  moreover have "dot (subtract h1 h0) (n_right h0 h1) = 0" if "h0 \<noteq> h1"
    by (simp only: n_right_eq [OF that] dot_scale_neg dot_frontage_n_left [OF that] minus_zero)
  ultimately show ?thesis
    by (simp add: dot_perp hypot_perp hypot_n_left dot_frontage_n_left)
qed

theorem perp_orthogonal_unit_normals_witness:
  "dot (3, 4) (perp (3, 4)) = 0 \<and> hypot (- 4) 3 = hypot 3 4 \<and>
   hypot (fst (n_left (0, 0) (10, 0))) (snd (n_left (0, 0) (10, 0))) = 1 \<and>
   hypot (fst (n_right (0, 0) (10, 0))) (snd (n_right (0, 0) (10, 0))) = 1 \<and>
   dot (10, 0) (n_left (0, 0) (10, 0)) = 0 \<and> dot (10, 0) (n_right (0, 0) (10, 0)) = 0"
  using perp_orthogonal_unit_normals [of "(3, 4)" "(0, 0)" "(10, 0)"]
  by (simp add: perp_def subtract_def)

lemma scale_neg_ne:
  assumes "hypot (fst v) (snd v) = 1"
  shows "scale v (- 1) \<noteq> v"
proof
  assume "scale v (- 1) = v"
  then have "fst v = 0" "snd v = 0"
    by (simp_all add: scale_def prod_eq_iff)
  with assms show False by simp
qed

text \<open>
  Claim C1, as amended. For every frontage \<open>(h0, h1)\<close> with \<open>h0 \<noteq> h1\<close> and every street
  segment \<open>(s0, s1)\<close>: the two candidates are \<open>n_left = unit (perp (unit (h1 - h0)))\<close> and
  its opposite \<open>n_right\<close>; the selected normal \<open>n_face\<close> is \<open>n_left\<close> when its dot product
  with \<open>to_street = unit (midpoint s0 s1 - midpoint h0 h1)\<close> is at least that of
  \<open>n_right\<close>, and \<open>n_right\<close> otherwise, so its dot product with \<open>to_street\<close> is at least
  that of the opposite normal and on a tie it is \<open>n_left\<close>. Whenever the two dot products
  differ, exchanging the names \<^verbatim>\<open>n_left\<close> and \<^verbatim>\<open>n_right\<close> selects the same normal; on a
  tie the exchange selects the opposite normal, which is a different vector.
\<close>

theorem facing_normal_selection:
  "h0 \<noteq> h1 \<longrightarrow>
     n_left h0 h1 = unit (perp (unit (subtract h1 h0))) \<and>
     n_right h0 h1 = scale (n_left h0 h1) (- 1) \<and>
     to_street h0 h1 s0 s1 = unit (subtract (midpoint s0 s1) (midpoint h0 h1)) \<and>
     n_face h0 h1 s0 s1 =
       (if dot (n_left h0 h1) (to_street h0 h1 s0 s1)
             \<ge> dot (n_right h0 h1) (to_street h0 h1 s0 s1)
        then n_left h0 h1 else n_right h0 h1) \<and>
     (n_face h0 h1 s0 s1 = n_left h0 h1 \<or> n_face h0 h1 s0 s1 = n_right h0 h1) \<and>
     dot (n_face h0 h1 s0 s1) (to_street h0 h1 s0 s1)
       \<ge> dot (scale (n_face h0 h1 s0 s1) (- 1)) (to_street h0 h1 s0 s1) \<and>
     (dot (n_left h0 h1) (to_street h0 h1 s0 s1) = dot (n_right h0 h1) (to_street h0 h1 s0 s1)
        \<longrightarrow> n_face h0 h1 s0 s1 = n_left h0 h1 \<and>
            n_face_swapped h0 h1 s0 s1 = n_right h0 h1 \<and>
            n_face_swapped h0 h1 s0 s1 = scale (n_face h0 h1 s0 s1) (- 1) \<and>
            n_face_swapped h0 h1 s0 s1 \<noteq> n_face h0 h1 s0 s1) \<and>
     (dot (n_left h0 h1) (to_street h0 h1 s0 s1) \<noteq> dot (n_right h0 h1) (to_street h0 h1 s0 s1)
        \<longrightarrow> n_face_swapped h0 h1 s0 s1 = n_face h0 h1 s0 s1)"
proof
  assume ne: "h0 \<noteq> h1"
  define ts where "ts = to_street h0 h1 s0 s1"
  define nl where "nl = n_left h0 h1"
  define nr where "nr = n_right h0 h1"
  have nr: "nr = scale nl (- 1)"
    unfolding nl_def nr_def by (rule n_right_eq [OF ne])
  have opp: "scale nl (- 1) \<noteq> nl"
    unfolding nl_def by (rule scale_neg_ne [OF hypot_n_left [OF ne]])
  have face: "n_face h0 h1 s0 s1 = (if dot nl ts \<ge> dot nr ts then nl else nr)"
    by (simp add: n_face_def pick_normal_def ts_def nl_def nr_def)
  have swapped: "n_face_swapped h0 h1 s0 s1 = (if dot nr ts \<ge> dot nl ts then nr else nl)"
    by (simp add: n_face_swapped_def pick_normal_def ts_def nl_def nr_def)
  have 1: "nl = unit (perp (unit (subtract h1 h0)))"
    by (simp add: nl_def n_left_def)
  have 2: "ts = unit (subtract (midpoint s0 s1) (midpoint h0 h1))"
    by (simp add: ts_def to_street_def)
  have 3: "n_face h0 h1 s0 s1 = nl \<or> n_face h0 h1 s0 s1 = nr"
    by (simp add: face)
  have 4: "dot (n_face h0 h1 s0 s1) ts \<ge> dot (scale (n_face h0 h1 s0 s1) (- 1)) ts"
    by (simp add: face nr dot_scale_neg_left scale_neg_neg)
  have 5: "n_face h0 h1 s0 s1 = nl \<and> n_face_swapped h0 h1 s0 s1 = nr \<and>
      n_face_swapped h0 h1 s0 s1 = scale (n_face h0 h1 s0 s1) (- 1) \<and>
      n_face_swapped h0 h1 s0 s1 \<noteq> n_face h0 h1 s0 s1"
    if "dot nl ts = dot nr ts"
    using that opp by (simp add: face swapped nr)
  have 6: "n_face_swapped h0 h1 s0 s1 = n_face h0 h1 s0 s1" if "dot nl ts \<noteq> dot nr ts"
    using that by (auto simp: face swapped)
  from 1 2 3 4 5 6 nr face
  show "n_left h0 h1 = unit (perp (unit (subtract h1 h0))) \<and>
     n_right h0 h1 = scale (n_left h0 h1) (- 1) \<and>
     to_street h0 h1 s0 s1 = unit (subtract (midpoint s0 s1) (midpoint h0 h1)) \<and>
     n_face h0 h1 s0 s1 =
       (if dot (n_left h0 h1) (to_street h0 h1 s0 s1)
             \<ge> dot (n_right h0 h1) (to_street h0 h1 s0 s1)
        then n_left h0 h1 else n_right h0 h1) \<and>
     (n_face h0 h1 s0 s1 = n_left h0 h1 \<or> n_face h0 h1 s0 s1 = n_right h0 h1) \<and>
     dot (n_face h0 h1 s0 s1) (to_street h0 h1 s0 s1)
       \<ge> dot (scale (n_face h0 h1 s0 s1) (- 1)) (to_street h0 h1 s0 s1) \<and>
     (dot (n_left h0 h1) (to_street h0 h1 s0 s1) = dot (n_right h0 h1) (to_street h0 h1 s0 s1)
        \<longrightarrow> n_face h0 h1 s0 s1 = n_left h0 h1 \<and>
            n_face_swapped h0 h1 s0 s1 = n_right h0 h1 \<and>
            n_face_swapped h0 h1 s0 s1 = scale (n_face h0 h1 s0 s1) (- 1) \<and>
            n_face_swapped h0 h1 s0 s1 \<noteq> n_face h0 h1 s0 s1) \<and>
     (dot (n_left h0 h1) (to_street h0 h1 s0 s1) \<noteq> dot (n_right h0 h1) (to_street h0 h1 s0 s1)
        \<longrightarrow> n_face_swapped h0 h1 s0 s1 = n_face h0 h1 s0 s1)"
    unfolding ts_def nl_def nr_def by blast
qed

lemma n_left_example: "n_left (0, 0) (10, 0) = (0, 1)"
  by (simp add: n_left_def subtract_def unit_def perp_def Let_def)

lemma n_right_example: "n_right (0, 0) (10, 0) = (0, - 1)"
  by (simp add: n_right_def n_left_example scale_def unit_def Let_def)

lemma to_street_example_tie: "to_street (0, 0) (10, 0) (20, 0) (30, 0) = (1, 0)"
  by (simp add: to_street_def midpoint_def subtract_def unit_def Let_def)

lemma to_street_example_below: "to_street (0, 0) (10, 0) (0, 5) (10, 5) = (0, 1)"
  by (simp add: to_street_def midpoint_def subtract_def unit_def Let_def)

theorem facing_normal_swap_counterexample:
  "n_face (0, 0) (10, 0) (20, 0) (30, 0) = (0, 1) \<and>
   n_face_swapped (0, 0) (10, 0) (20, 0) (30, 0) = (0, - 1)"
  by (simp add: n_face_def n_face_swapped_def pick_normal_def n_left_example n_right_example
      to_street_example_tie dot_def)

theorem facing_normal_selection_witness:
  "((0, 0) :: point) \<noteq> (10, 0) \<and>
   n_face_swapped (0, 0) (10, 0) (0, 5) (10, 5) = n_face (0, 0) (10, 0) (0, 5) (10, 5) \<and>
   n_face (0, 0) (10, 0) (20, 0) (30, 0) = n_left (0, 0) (10, 0) \<and>
   n_face_swapped (0, 0) (10, 0) (20, 0) (30, 0) = n_right (0, 0) (10, 0) \<and>
   n_face_swapped (0, 0) (10, 0) (20, 0) (30, 0) \<noteq> n_face (0, 0) (10, 0) (20, 0) (30, 0)"
proof -
  have ne: "((0, 0) :: point) \<noteq> (10, 0)" by simp
  have differ: "dot (n_left (0, 0) (10, 0)) (to_street (0, 0) (10, 0) (0, 5) (10, 5))
      \<noteq> dot (n_right (0, 0) (10, 0)) (to_street (0, 0) (10, 0) (0, 5) (10, 5))"
    by (simp add: n_left_example n_right_example to_street_example_below dot_def)
  have tie: "dot (n_left (0, 0) (10, 0)) (to_street (0, 0) (10, 0) (20, 0) (30, 0))
      = dot (n_right (0, 0) (10, 0)) (to_street (0, 0) (10, 0) (20, 0) (30, 0))"
    by (simp add: n_left_example n_right_example to_street_example_tie dot_def)
  from facing_normal_selection [of "(0, 0)" "(10, 0)" "(0, 5)" "(10, 5)"] ne differ
  have "n_face_swapped (0, 0) (10, 0) (0, 5) (10, 5) = n_face (0, 0) (10, 0) (0, 5) (10, 5)"
    by blast
  moreover from facing_normal_selection [of "(0, 0)" "(10, 0)" "(20, 0)" "(30, 0)"] ne tie
  have "n_face (0, 0) (10, 0) (20, 0) (30, 0) = n_left (0, 0) (10, 0) \<and>
    n_face_swapped (0, 0) (10, 0) (20, 0) (30, 0) = n_right (0, 0) (10, 0) \<and>
    n_face_swapped (0, 0) (10, 0) (20, 0) (30, 0) \<noteq> n_face (0, 0) (10, 0) (20, 0) (30, 0)"
    by blast
  ultimately show ?thesis using ne by blast
qed

subsection \<open>Bearings\<close>

text \<open>
  \<open>atan2\<close> is the angle of a non-zero vector: its cosine and sine are the normalised
  coordinates, and it lies in \<open>(-pi, pi]\<close>.
\<close>

lemma hypot_factor:
  assumes "x \<noteq> 0"
  shows "hypot x y = \<bar>x\<bar> * sqrt (1 + (y / x)\<^sup>2)"
proof -
  have "x\<^sup>2 + y\<^sup>2 = x\<^sup>2 * (1 + (y / x)\<^sup>2)"
    using assms by (simp add: power_divide field_simps)
  then show ?thesis
    by (simp add: hypot_def real_sqrt_mult)
qed

lemma atan2_cos_sin:
  assumes "(x, y) \<noteq> (0, 0)"
  shows "cos (atan2 y x) = x / hypot x y \<and> sin (atan2 y x) = y / hypot x y"
proof -
  consider "0 < x" | "x < 0" | "x = 0" "0 < y" | "x = 0" "y < 0"
    using assms less_linear [of x 0] less_linear [of y 0] by auto
  then show ?thesis
  proof cases
    case 1
    then show ?thesis
      by (simp add: atan2_def cos_arctan sin_arctan hypot_factor)
  next
    case 2
    then show ?thesis
      by (simp add: atan2_def cos_arctan sin_arctan hypot_factor)
  next
    case 3
    then show ?thesis by (simp add: atan2_def)
  next
    case 4
    then show ?thesis by (simp add: atan2_def)
  qed
qed

lemma atan2_range: "- pi < atan2 y x \<and> atan2 y x \<le> pi"
proof -
  have b: "- (pi / 2) < arctan (y / x)" "arctan (y / x) < pi / 2"
    by (rule arctan_lbound, rule arctan_ubound)
  have neg: "arctan (y / x) \<le> 0" if "x < 0" "0 \<le> y"
    using that by (simp add: arctan_le_zero_iff divide_nonneg_neg)
  have pos: "0 < arctan (y / x)" if "x < 0" "y < 0"
    using that by (simp add: zero_less_arctan_iff divide_neg_neg)
  show ?thesis
    using b neg pos pi_gt_zero by (auto simp: atan2_def)
qed

text \<open>
  Claim C6. For every non-zero vector \<open>(dx, dy)\<close> the image-plane converter returns
  \<open>normalize (degrees (atan2 dx (- dy)))\<close>, in \<^verbatim>\<open>house_orientation.py\<close> and in
  \<^verbatim>\<open>house_orientation_v2.py\<close>; straight up \<open>(0, -1)\<close> has bearing 0 and right \<open>(1, 0)\<close>
  has bearing 90.
\<close>

theorem bearing_from_vector_formula:
  "((dx, dy) \<noteq> (0, 0) \<longrightarrow>
      bearing_from_vector dx dy = normalize_angle_deg (degrees (atan2 dx (- dy))) \<and>
      bearing_from_vec dx dy = normalize_angle_deg (degrees (atan2 dx (- dy)))) \<and>
   bearing_from_vector 0 (- 1) = 0 \<and> bearing_from_vector 1 0 = 90 \<and>
   bearing_from_vec 0 (- 1) = 0 \<and> bearing_from_vec 1 0 = 90"
proof -
  have "bearing_from_vector 0 (- 1) = 0" "bearing_from_vector 1 0 = 90"
       "bearing_from_vec 0 (- 1) = 0" "bearing_from_vec 1 0 = 90"
    by (simp_all add: bearing_from_vector_def bearing_from_vec_def atan2_neg_def atan2_def
        degrees_def normalize_angle_deg_eq float_mod_small)
  then show ?thesis
    by (simp add: bearing_from_vector_def bearing_from_vec_def atan2_neg_def
        normalize_angle_deg_eq)
qed

theorem bearing_from_vector_formula_witness:
  "((0, 1) :: point) \<noteq> (0, 0) \<and> bearing_from_vector 0 1 = 180 \<and> bearing_from_vec 0 1 = 180"
  using bearing_from_vector_formula [of 0 1]
  by (simp add: atan2_def degrees_def normalize_angle_deg_eq float_mod_small)

text \<open>
  Claim C7. The metric-plane converter returns
  \<open>(90 - degrees (atan2 dy dx)) mod 360\<close> with \<open>dx = qx - px\<close> and \<open>dy = qy - py\<close>; the
  direction \<open>(0, 1)\<close> has bearing 0 and the direction \<open>(1, 0)\<close> has bearing 90.
\<close>

theorem bearing_from_point_to_point_formula:
  "bearing_from_point_to_point px py qx qy
     = float_mod (90 - degrees (atan2 (qy - py) (qx - px))) 360 \<and>
   bearing_from_point_to_point px py (px + 0) (py + 1) = 0 \<and>
   bearing_from_point_to_point px py (px + 1) (py + 0) = 90"
proof -
  have "bearing_from_point_to_point px py (px + 0) (py + 1) = 0"
       "bearing_from_point_to_point px py (px + 1) (py + 0) = 90"
    by (simp_all add: bearing_from_point_to_point_def atan2_def degrees_def float_mod_small)
  then show ?thesis
    by (simp add: bearing_from_point_to_point_def Let_def)
qed

subsection \<open>The zero-length frontage\<close>

lemma n_left_degenerate: "n_left h h = (0, 0)"
  by (simp add: n_left_def subtract_def unit_def perp_def Let_def)

lemma n_right_degenerate: "n_right h h = (0, 0)"
  by (simp add: n_right_def n_left_degenerate scale_def unit_def Let_def)

lemma n_face_degenerate: "n_face h h s0 s1 = (0, 0)"
  by (simp add: n_face_def pick_normal_def n_left_degenerate n_right_degenerate)

lemma bearing_from_vector_zero: "bearing_from_vector 0 0 = 180"
  by (simp add: bearing_from_vector_def atan2_neg_def degrees_def normalize_angle_deg_eq float_mod_small)

lemma compass_8_180: "compass_8 180 = ''S''"
  by (simp add: compass_8_index dirs_def)

text \<open>
  Claim C2, as amended. When the two frontage points coincide, \<^verbatim>\<open>workflow_frontage\<close>
  raises no error: \<^verbatim>\<open>unit\<close> gives the zero vector, both normals and the selected normal
  are \<open>(0, 0)\<close>, and the function returns the bearing of the zero vector, which is
  180 with the label S (not 0 with the label N).
\<close>

theorem workflow_frontage_degenerate:
  "workflow_frontage [h, h] [s0, s1] = Inr (180, ''S'') \<and> n_face h h s0 s1 = (0, 0)"
  by (simp add: workflow_frontage_def get_points_def n_face_degenerate
      bearing_from_vector_zero compass_8_180)

theorem workflow_frontage_degenerate_counterexample:
  "workflow_frontage [(3, 4), (3, 4)] [(0, 9), (10, 9)] = Inr (180, ''S'')"
  by (simp add: workflow_frontage_def get_points_def n_face_degenerate
      bearing_from_vector_zero compass_8_180)

subsection \<open>Selecting the nearest candidate\<close>

text \<open>
  \<open>min_key\<close> returns the first item of least key: every item before it has a strictly
  larger key and every item after it a key at least as large.
\<close>

lemma min_key_first_minimum:
  "\<exists>pre post. x # xs = pre @ min_key key x xs # post \<and>
     (\<forall>z\<in>set pre. key (min_key key x xs) < key z) \<and>
     (\<forall>z\<in>set post. key (min_key key x xs) \<le> key z)"
proof (induction xs arbitrary: x)
  case Nil
  show ?case
  proof (intro exI conjI)
    show "[x] = [] @ min_key key x [] # []" by simp
  qed simp_all
next
  case (Cons y ys)
  show ?case
  proof (cases "key y < key x")
    case True
    then have step: "min_key key x (y # ys) = min_key key y ys" by simp
    from Cons.IH [of y] obtain pre post where
      split: "y # ys = pre @ min_key key y ys # post"
      and before: "\<forall>z\<in>set pre. key (min_key key y ys) < key z"
      and after: "\<forall>z\<in>set post. key (min_key key y ys) \<le> key z"
      by blast
    have "y \<in> set (pre @ min_key key y ys # post)"
      unfolding split [symmetric] by simp
    with before after have "key (min_key key y ys) \<le> key y"
      by auto
    with True have lt: "key (min_key key y ys) < key x" by simp
    show ?thesis
      unfolding step
    proof (intro exI conjI)
      show "x # y # ys = (x # pre) @ min_key key y ys # post"
        using split by simp
      show "\<forall>z\<in>set (x # pre). key (min_key key y ys) < key z"
        using before lt by simp
      show "\<forall>z\<in>set post. key (min_key key y ys) \<le> key z"
        by (rule after)
    qed
  next
    case False
    then have step: "min_key key x (y # ys) = min_key key x ys" by simp
    from Cons.IH [of x] obtain pre post where
      split: "x # ys = pre @ min_key key x ys # post"
      and before: "\<forall>z\<in>set pre. key (min_key key x ys) < key z"
      and after: "\<forall>z\<in>set post. key (min_key key x ys) \<le> key z"
      by blast
    show ?thesis
    proof (cases pre)
      case Nil
      from split [unfolded Nil] have "x # ys = min_key key x ys # post"
        by (simp only: append_Nil)
      from this [unfolded list.inject] have eqs: "x = min_key key x ys \<and> ys = post" .
      have res: "min_key key x ys = x"
        by (rule eqs [THEN conjunct1, symmetric])
      have post: "post = ys"
        by (rule eqs [THEN conjunct2, symmetric])
      show ?thesis
        unfolding step res
      proof (intro exI conjI)
        show "x # y # ys = [] @ x # (y # ys)" by simp
        show "\<forall>z\<in>set []. key x < key z" by simp
        show "\<forall>z\<in>set (y # ys). key x \<le> key z"
          using after False by (simp add: res post)
      qed
    next
      case (Cons x' pre')
      from split [unfolded Cons] have "x # ys = x' # pre' @ min_key key x ys # post"
        by (simp only: append_Cons)
      from this [unfolded list.inject]
      have eqs: "x = x' \<and> ys = pre' @ min_key key x ys # post" .
      have x': "x' = x"
        by (rule eqs [THEN conjunct1, symmetric])
      have ys: "ys = pre' @ min_key key x ys # post"
        by (rule eqs [THEN conjunct2])
      from before Cons x' have lt: "key (min_key key x ys) < key x" by simp
      with False have lt': "key (min_key key x ys) < key y" by simp
      show ?thesis
        unfolding step
      proof (intro exI conjI)
        show "x # y # ys = (x # y # pre') @ min_key key x ys # post"
          using ys by simp
        show "\<forall>z\<in>set (x # y # pre'). key (min_key key x ys) < key z"
          using before Cons lt lt' by simp
        show "\<forall>z\<in>set post. key (min_key key x ys) \<le> key z"
          by (rule after)
      qed
    qed
  qed
qed

text \<open>
  The loop of \<^verbatim>\<open>nearest_road_bearing_from_address\<close> is the same selection, on the
  projected roads, whatever the distance function is.
\<close>

lemma nearest_road_loop_min_key:
  "nearest_road_loop to_3857_xy dfun p roads (Some best, Some (dfun p best))
     = (let b = min_key (dfun p) best (map (map_line to_3857_xy) roads)
        in (Some b, Some (dfun p b)))"
  by (induction roads arbitrary: best) (simp_all add: below_best_def Let_def)

lemma nearest_road_loop_start:
  "nearest_road_loop to_3857_xy dfun p (road # roads) (None, None)
     = (let b = min_key (dfun p) (map_line to_3857_xy road) (map (map_line to_3857_xy) roads)
        in (Some b, Some (dfun p b)))"
  by (simp add: below_best_def Let_def nearest_road_loop_min_key)

text \<open>
  Claim C4. For every non-empty list of candidate lines in a fixed order, the search
  selects a line whose distance to the reference point is the global minimum, and among
  several candidates at that minimum the first in input order: every earlier candidate
  is strictly farther, every later one at least as far. This holds for the loop over
  the projected roads, for any distance function, and for Python's \<^verbatim>\<open>min\<close> with a key
  as \<^verbatim>\<open>find_orientation\<close> calls it.
\<close>

theorem nearest_candidate_first_minimum:
  "(roads \<noteq> [] \<longrightarrow>
      (\<exists>pre best post.
         map (map_line to_3857_xy) roads = pre @ best # post \<and>
         nearest_road_loop to_3857_xy dfun p roads (None, None) = (Some best, Some (dfun p best)) \<and>
         (\<forall>l\<in>set pre. dfun p best < dfun p l) \<and>
         (\<forall>l\<in>set post. dfun p best \<le> dfun p l))) \<and>
   (\<exists>pre post.
      c # cs = pre @ min_key key c cs # post \<and>
      (\<forall>z\<in>set pre. key (min_key key c cs) < key z) \<and>
      (\<forall>z\<in>set post. key (min_key key c cs) \<le> key z))"
proof -
  have "\<exists>pre best post.
         map (map_line to_3857_xy) roads = pre @ best # post \<and>
         nearest_road_loop to_3857_xy dfun p roads (None, None) = (Some best, Some (dfun p best)) \<and>
         (\<forall>l\<in>set pre. dfun p best < dfun p l) \<and>
         (\<forall>l\<in>set post. dfun p best \<le> dfun p l)" if "roads \<noteq> []"
  proof -
    from that obtain r rs where roads: "roads = r # rs" by (cases roads) auto
    define b where "b = min_key (dfun p) (map_line to_3857_xy r) (map (map_line to_3857_xy) rs)"
    from min_key_first_minimum [of "map_line to_3857_xy r" "map (map_line to_3857_xy) rs" "dfun p"]
    obtain pre post where
      "map_line to_3857_xy r # map (map_line to_3857_xy) rs = pre @ b # post"
      "\<forall>z\<in>set pre. dfun p b < dfun p z" "\<forall>z\<in>set post. dfun p b \<le> dfun p z"
      unfolding b_def by blast
    moreover have "nearest_road_loop to_3857_xy dfun p roads (None, None) = (Some b, Some (dfun p b))"
      unfolding roads b_def by (simp only: nearest_road_loop_start Let_def)
    ultimately show ?thesis
      unfolding roads by auto
  qed
  with min_key_first_minimum [of c cs key] show ?thesis by blast
qed

text \<open>
  In \<^verbatim>\<open>find_orientation\<close> the road word is chosen by that selection among the words
  longer than four characters; of two words at the same distance from the house label
  the first one is taken.
\<close>

lemma find_orientation_found:
  assumes "map snd (filter (\<lambda>tp. fst tp = target_label) texts) = house_points"
    and "house_points \<noteq> []"
    and "filter (\<lambda>tp. length (fst tp) > 4) texts = c # cs"
  shows "find_orientation texts target_label =
     (let house = np_mean house_points;
          nearest = min_key (\<lambda>tp. np_norm (subtract (snd tp) house)) c cs;
          b = bearing_from_vec (fst (snd nearest) - fst house) (snd (snd nearest) - snd house)
      in Inr (compass8 b, b, fst nearest))"
  using assms by (simp add: find_orientation_def Let_def split: prod.splits)

lemma np_norm_axis: "np_norm (0, y) = \<bar>y\<bar>" "np_norm (x, 0) = \<bar>x\<bar>"
  by (simp_all add: np_norm_def)

lemma bearing_from_vec_up: "bearing_from_vec 0 (- 15) = 0"
  by (simp add: bearing_from_vec_def atan2_neg_def atan2_def degrees_def float_mod_small)

lemma compass8_0: "compass8 0 = ''N''"
  by (simp add: compass8_def int_of_float_floordiv dirs_def)

lemma find_orientation_tie_example:
  "find_orientation [(''13'', (10, 20)), (''Smith'', (10, 5)), (''Jones'', (25, 20))] ''13''
   = Inr (''N'', 0, ''Smith'')"
proof -
  have "find_orientation [(''13'', (10, 20)), (''Smith'', (10, 5)), (''Jones'', (25, 20))] ''13''
    = (let house = np_mean [(10, 20)];
          nearest = min_key (\<lambda>tp. np_norm (subtract (snd tp) house)) (''Smith'', (10, 5))
            [(''Jones'', (25, 20))];
          b = bearing_from_vec (fst (snd nearest) - fst house) (snd (snd nearest) - snd house)
      in Inr (compass8 b, b, fst nearest))"
    by (rule find_orientation_found) simp_all
  also have "\<dots> = Inr (''N'', 0, ''Smith'')"
    by (simp add: np_mean_def subtract_def np_norm_axis bearing_from_vec_up compass8_0)
  finally show ?thesis .
qed

subsection \<open>Nearest point on a segment and on a polyline\<close>

text \<open>
  Along the line through \<open>a\<close> and \<open>b\<close> the squared distance from \<open>p\<close> is a parabola in
  the parameter with its vertex at \<open>foot_param p a b\<close>, so a parameter closer to the
  foot gives a closer point.
\<close>

lemma euclid_le_iff:
  "euclid p q \<le> euclid p q' \<longleftrightarrow>
   (fst q - fst p)\<^sup>2 + (snd q - snd p)\<^sup>2 \<le> (fst q' - fst p)\<^sup>2 + (snd q' - snd p)\<^sup>2"
  by (simp add: euclid_def hypot_def)

lemma dot_self_pos:
  assumes "a \<noteq> b"
  shows "0 < dot (subtract b a) (subtract b a)"
proof -
  from assms have "fst b - fst a \<noteq> 0 \<or> snd b - snd a \<noteq> 0"
    by (cases a, cases b) auto
  then show ?thesis
    by (simp add: dot_def subtract_def sum_squares_gt_zero_iff)
qed

lemma foot_param_mult:
  assumes "a \<noteq> b"
  shows "foot_param p a b * dot (subtract b a) (subtract b a) = dot (subtract p a) (subtract b a)"
  using dot_self_pos [OF assms] by (simp add: foot_param_def Let_def)

lemma sq_dist_along:
  assumes "a \<noteq> b"
  shows "(fst (along a b s) - fst p)\<^sup>2 + (snd (along a b s) - snd p)\<^sup>2
     = dot (subtract b a) (subtract b a) * (s - foot_param p a b)\<^sup>2
       + (dot (subtract p a) (subtract p a)
          - dot (subtract b a) (subtract b a) * (foot_param p a b)\<^sup>2)"
proof -
  define L where "L = dot (subtract b a) (subtract b a)"
  define t where "t = foot_param p a b"
  have tL: "t * L = dot (subtract p a) (subtract b a)"
    unfolding t_def L_def by (rule foot_param_mult [OF assms])
  have "(fst (along a b s) - fst p)\<^sup>2 + (snd (along a b s) - snd p)\<^sup>2
      = s\<^sup>2 * L - 2 * s * dot (subtract p a) (subtract b a) + dot (subtract p a) (subtract p a)"
    by (simp add: along_def L_def dot_def subtract_def power2_eq_square algebra_simps)
  also have "\<dots> = s\<^sup>2 * L - 2 * s * (t * L) + dot (subtract p a) (subtract p a)"
    by (simp only: tL)
  also have "\<dots> = L * (s - t)\<^sup>2 + (dot (subtract p a) (subtract p a) - L * t\<^sup>2)"
    by (simp add: power2_eq_square algebra_simps)
  finally show ?thesis
    unfolding L_def t_def .
qed

lemma along_0 [simp]: "along a b 0 = a"
  by (simp add: along_def)

lemma along_1 [simp]: "along a b 1 = b"
  by (simp add: along_def)

lemma foot_orthogonal:
  assumes "a \<noteq> b"
  shows "dot (subtract p (along a b (foot_param p a b))) (subtract b a) = 0"
proof -
  have "dot (subtract p (along a b (foot_param p a b))) (subtract b a)
      = dot (subtract p a) (subtract b a)
        - foot_param p a b * dot (subtract b a) (subtract b a)"
    by (simp add: dot_def subtract_def along_def algebra_simps)
  then show ?thesis
    by (simp only: foot_param_mult [OF assms])
qed

lemma euclid_along_mono:
  assumes "a \<noteq> b" and "\<bar>s - foot_param p a b\<bar> \<le> \<bar>s' - foot_param p a b\<bar>"
  shows "euclid p (along a b s) \<le> euclid p (along a b s')"
proof -
  from assms(2) have "(s - foot_param p a b)\<^sup>2 \<le> (s' - foot_param p a b)\<^sup>2"
    by (simp only: abs_le_square_iff)
  with dot_self_pos [OF assms(1)] show ?thesis
    by (simp add: euclid_le_iff sq_dist_along [OF assms(1)] mult_left_mono)
qed

lemma segment_nearest_minimal:
  assumes "0 \<le> s" "s \<le> 1"
  shows "euclid p (segment_nearest p a b) \<le> euclid p (along a b s)"
proof (cases "a = b")
  case True
  then show ?thesis
    by (simp add: segment_nearest_def along_def)
next
  case False
  define t where "t = foot_param p a b"
  consider "0 \<le> t" "t \<le> 1" | "t < 0" | "1 < t" by linarith
  then show ?thesis
  proof cases
    case 1
    then have "segment_nearest p a b = along a b t"
      using False by (simp add: segment_nearest_def t_def)
    then show ?thesis
      using euclid_along_mono [OF False, of t p s] by (simp add: t_def)
  next
    case 2
    then have "\<bar>0 - t\<bar> \<le> \<bar>s - t\<bar>" using assms by simp
    then have "euclid p a \<le> euclid p (along a b s)"
      using euclid_along_mono [OF False, of 0 p s] by (simp add: t_def)
    moreover have "euclid p (segment_nearest p a b) \<le> euclid p a"
      using False 2 by (simp add: segment_nearest_def t_def)
    ultimately show ?thesis by simp
  next
    case 3
    then have "\<bar>1 - t\<bar> \<le> \<bar>s - t\<bar>" using assms by simp
    then have "euclid p b \<le> euclid p (along a b s)"
      using euclid_along_mono [OF False, of 1 p s] by (simp add: t_def)
    moreover have "euclid p (segment_nearest p a b) \<le> euclid p b"
      using False 3 by (simp add: segment_nearest_def t_def)
    ultimately show ?thesis by simp
  qed
qed

lemma segment_distance_nearest: "segment_distance p a b = euclid p (segment_nearest p a b)"
  by (simp add: segment_distance_def segment_nearest_def Let_def min_def)

lemma polyline_distance_nearest:
  "polyline_distance p a b rest = euclid p (polyline_nearest p a b rest)"
  by (induction rest arbitrary: a b) (simp_all add: segment_distance_nearest Let_def min_def)

lemma distance_nearest_point: "distance p l = euclid p (nearest_point p l)"
  by (cases l) (simp add: polyline_distance_nearest)


subsection \<open>The result of the road search\<close>

lemma nearest_road_bearing_from_address_found:
  "nearest_road_bearing_from_address to_3857_xy dfun nearest lonlat (road # roads) =
     (let p = to_3857_xy lonlat;
          best = min_key (dfun p) (map_line to_3857_xy road) (map (map_line to_3857_xy) roads);
          q = nearest p best;
          bearing = bearing_from_point_to_point (fst p) (snd p) (fst q) (snd q)
      in Inr \<lparr>lat = snd lonlat, lon = fst lonlat, bearing_deg = Some (py_round bearing 2),
              compass = Some (bearing_to_compass bearing),
              distance_to_road_m = Some (py_round (dfun p best) 2), note_str = None\<rparr>)"
  by (simp add: nearest_road_bearing_from_address_def nearest_road_loop_start Let_def
      del: nearest_road_loop.simps)

lemma min_key_mem: "min_key key x xs \<in> set (x # xs)"
  by (induction xs arbitrary: x) auto

lemma segment_example:
  "foot_param (0, 0) (5, 5) (5, - 5) = 1 / 2"
  "segment_nearest (0, 0) (5, 5) (5, - 5) = (5, 0)"
  "segment_distance (0, 0) (5, 5) (5, - 5) = 5"
  by (simp_all add: segment_nearest_def segment_distance_def foot_param_def along_def
      subtract_def dot_def euclid_def)

lemma py_round_examples:
  "py_round 5 2 = 5" "py_round 90 2 = 90" "py_round (1 / 16) 2 = 3 / 50"
  by (simp_all add: py_round_def round_half_even_def)

lemma bearing_east: "bearing_from_point_to_point 0 0 x 0 = 90" if "0 < x"
  using that by (simp add: bearing_from_point_to_point_def atan2_def degrees_def float_mod_small)

lemma bearing_to_compass_90: "bearing_to_compass 90 = ''E''"
  by (simp add: bearing_to_compass_def int_of_float_floordiv dirs_def)

lemma short_segment_example:
  "segment_nearest (0, 0) (1 / 16, 1) (1 / 16, - 1) = (1 / 16, 0)"
  "segment_distance (0, 0) (1 / 16, 1) (1 / 16, - 1) = 1 / 16"
  by (simp_all add: segment_nearest_def segment_distance_def foot_param_def along_def
      subtract_def dot_def euclid_def)

text \<open>
  Claim C5, as amended. The nearest point on a segment is the orthogonal projection of
  \<open>p\<close> when the perpendicular foot falls within the segment and the nearer endpoint
  otherwise; it is at least as close to \<open>p\<close> as every point of the segment; the distance
  computed for a segment and for a polyline is the Euclidean distance from \<open>p\<close> to the
  nearest point; and the reported \<^verbatim>\<open>distance_to_road_m\<close> is that distance rounded to two
  decimal places. For \<open>p = (0, 0)\<close> and the single segment from \<open>(5, 5)\<close> to \<open>(5, -5)\<close> the
  nearest point is \<open>(5, 0)\<close> and the distance, computed and reported, is 5.
\<close>

theorem nearest_point_and_reported_distance:
  "(a \<noteq> b \<and> 0 \<le> foot_param p a b \<and> foot_param p a b \<le> 1 \<longrightarrow>
      segment_nearest p a b = along a b (foot_param p a b) \<and>
      dot (subtract p (segment_nearest p a b)) (subtract b a) = 0) \<and>
   (a \<noteq> b \<and> \<not> (0 \<le> foot_param p a b \<and> foot_param p a b \<le> 1) \<longrightarrow>
      segment_nearest p a b = (if euclid p a \<le> euclid p b then a else b)) \<and>
   (0 \<le> s \<and> s \<le> 1 \<longrightarrow> euclid p (segment_nearest p a b) \<le> euclid p (along a b s)) \<and>
   segment_distance p a b = euclid p (segment_nearest p a b) \<and>
   distance p l = euclid p (nearest_point p l) \<and>
   (roads \<noteq> [] \<longrightarrow>
      (\<exists>best r. best \<in> set (map (map_line to_3857_xy) roads) \<and>
         nearest_road_bearing_from_address to_3857_xy distance nearest_point lonlat roads = Inr r \<and>
         distance_to_road_m r
           = Some (py_round (euclid (to_3857_xy lonlat) (nearest_point (to_3857_xy lonlat) best)) 2))) \<and>
   nearest_point (0, 0) (LineString (5, 5) (5, - 5) []) = (5, 0) \<and>
   distance (0, 0) (LineString (5, 5) (5, - 5) []) = 5 \<and>
   nearest_road_bearing_from_address id distance nearest_point (0, 0) [LineString (5, 5) (5, - 5) []]
     = Inr \<lparr>lat = 0, lon = 0, bearing_deg = Some 90, compass = Some ''E'',
            distance_to_road_m = Some 5, note_str = None\<rparr>"
proof -
  have foot: "segment_nearest p a b = along a b (foot_param p a b) \<and>
      dot (subtract p (segment_nearest p a b)) (subtract b a) = 0"
    if "a \<noteq> b" "0 \<le> foot_param p a b" "foot_param p a b \<le> 1"
    using that foot_orthogonal [of a b p] by (simp add: segment_nearest_def)
  have endpoint: "segment_nearest p a b = (if euclid p a \<le> euclid p b then a else b)"
    if "a \<noteq> b" "\<not> (0 \<le> foot_param p a b \<and> foot_param p a b \<le> 1)"
    using that by (auto simp: segment_nearest_def Let_def)
  have minimal: "euclid p (segment_nearest p a b) \<le> euclid p (along a b s)"
    if "0 \<le> s" "s \<le> 1"
    using that by (rule segment_nearest_minimal)
  have reported: "\<exists>best r. best \<in> set (map (map_line to_3857_xy) roads) \<and>
         nearest_road_bearing_from_address to_3857_xy distance nearest_point lonlat roads = Inr r \<and>
         distance_to_road_m r
           = Some (py_round (euclid (to_3857_xy lonlat) (nearest_point (to_3857_xy lonlat) best)) 2)"
    if "roads \<noteq> []"
  proof -
    from that obtain x xs where roads: "roads = x # xs" by (cases roads) auto
    define best where "best = min_key (distance (to_3857_xy lonlat)) (map_line to_3857_xy x)
      (map (map_line to_3857_xy) xs)"
    define q where "q = nearest_point (to_3857_xy lonlat) best"
    define bearing where "bearing = bearing_from_point_to_point
      (fst (to_3857_xy lonlat)) (snd (to_3857_xy lonlat)) (fst q) (snd q)"
    define r where "r = \<lparr>lat = snd lonlat, lon = fst lonlat,
      bearing_deg = Some (py_round bearing 2), compass = Some (bearing_to_compass bearing),
      distance_to_road_m = Some (py_round (distance (to_3857_xy lonlat) best) 2),
      note_str = None\<rparr>"
    have mem: "best \<in> set (map (map_line to_3857_xy) roads)"
      unfolding best_def roads using min_key_mem [of "distance (to_3857_xy lonlat)"
          "map_line to_3857_xy x" "map (map_line to_3857_xy) xs"] by simp
    have res: "nearest_road_bearing_from_address to_3857_xy distance nearest_point lonlat roads
        = Inr r"
      unfolding roads nearest_road_bearing_from_address_found Let_def
      by (simp only: r_def bearing_def q_def best_def)
    have "distance_to_road_m r
        = Some (py_round (euclid (to_3857_xy lonlat) (nearest_point (to_3857_xy lonlat) best)) 2)"
      by (simp add: r_def distance_nearest_point)
    with mem res show ?thesis by blast
  qed
  have example: "nearest_point (0, 0) (LineString (5, 5) (5, - 5) []) = (5, 0)"
    "distance (0, 0) (LineString (5, 5) (5, - 5) []) = 5"
    by (simp_all add: segment_example)
  have full: "nearest_road_bearing_from_address id distance nearest_point (0, 0)
      [LineString (5, 5) (5, - 5) []]
     = Inr \<lparr>lat = 0, lon = 0, bearing_deg = Some 90, compass = Some ''E'',
            distance_to_road_m = Some 5, note_str = None\<rparr>"
    by (simp add: nearest_road_bearing_from_address_found Let_def segment_example
        bearing_east py_round_examples bearing_to_compass_90)
  from foot endpoint minimal reported example full show ?thesis
    by (simp only: segment_distance_nearest distance_nearest_point) blast
qed

theorem reported_distance_counterexample:
  "nearest_road_bearing_from_address id distance nearest_point (0, 0)
      [LineString (1 / 16, 1) (1 / 16, - 1) []]
     = Inr \<lparr>lat = 0, lon = 0, bearing_deg = Some 90, compass = Some ''E'',
            distance_to_road_m = Some (3 / 50), note_str = None\<rparr> \<and>
   euclid (0, 0) (nearest_point (0, 0) (LineString (1 / 16, 1) (1 / 16, - 1) [])) = 1 / 16"
  by (simp add: nearest_road_bearing_from_address_found Let_def short_segment_example
      bearing_east py_round_examples bearing_to_compass_90 euclid_def)


theorem nearest_point_and_reported_distance_witness:
  "segment_nearest (0, 0) (5, 5) (5, - 5) = along (5, 5) (5, - 5) (foot_param (0, 0) (5, 5) (5, - 5)) \<and>
   dot (subtract (0, 0) (segment_nearest (0, 0) (5, 5) (5, - 5))) (subtract (5, - 5) (5, 5)) = 0 \<and>
   euclid (0, 0) (segment_nearest (0, 0) (5, 5) (5, - 5)) \<le> euclid (0, 0) (along (5, 5) (5, - 5) (1 / 4)) \<and>
   segment_nearest (0, 20) (5, 5) (5, - 5) = (5, 5) \<and>
   (\<exists>best r. best \<in> set (map (map_line id) [LineString (1 / 16, 1) (1 / 16, - 1) []]) \<and>
      nearest_road_bearing_from_address id distance nearest_point (0, 0)
        [LineString (1 / 16, 1) (1 / 16, - 1) []] = Inr r \<and>
      distance_to_road_m r = Some (py_round (euclid (id (0, 0)) (nearest_point (id (0, 0)) best)) 2))"
proof -
  have inside: "((5, 5) :: point) \<noteq> (5, - 5) \<and> 0 \<le> foot_param (0, 0) (5, 5) (5, - 5)
      \<and> foot_param (0, 0) (5, 5) (5, - 5) \<le> 1"
    by (simp add: segment_example)
  have outside: "((5, 5) :: point) \<noteq> (5, - 5) \<and>
      \<not> (0 \<le> foot_param (0, 20) (5, 5) (5, - 5) \<and> foot_param (0, 20) (5, 5) (5, - 5) \<le> 1)"
    by (simp add: foot_param_def subtract_def dot_def)
  have nearer: "euclid (0, 20) (5, 5) \<le> euclid (0, 20) (5, - 5)"
    by (simp add: euclid_le_iff)
  have range: "(0 :: real) \<le> 1 / 4 \<and> (1 / 4 :: real) \<le> 1" by simp
  have nonempty: "[LineString (1 / 16, 1) (1 / 16, - 1) []] \<noteq> []" by simp
  note first = nearest_point_and_reported_distance
    [where a = "(5, 5)" and b = "(5, - 5)" and p = "(0, 0)" and s = "1 / 4"
       and roads = "[LineString (1 / 16, 1) (1 / 16, - 1) []]" and ?to_3857_xy = id
       and lonlat = "(0, 0)"]
  note second = nearest_point_and_reported_distance
    [where a = "(5, 5)" and b = "(5, - 5)" and p = "(0, 20)"]
  from second outside nearer have "segment_nearest (0, 20) (5, 5) (5, - 5) = (5, 5)"
    by simp
  with first inside range nonempty show ?thesis
    by blast
qed

subsection \<open>No candidates\<close>

lemma find_orientation_no_road:
  assumes "filter (\<lambda>tp. length (fst tp) > 4) texts = []"
  shows "find_orientation texts target_label =
     Inl (ValueError (if filter (\<lambda>tp. fst tp = target_label) texts = []
                      then ''Could not find label '' @ target_label
                      else ''No road label detected''))"
  using assms by (simp add: find_orientation_def Let_def)

text \<open>
  Claim C3, as amended. With no road fetched, \<^verbatim>\<open>nearest_road_bearing_from_address\<close> raises
  no error: it returns a result whose \<^verbatim>\<open>bearing_deg\<close> is \<^verbatim>\<open>None\<close>, with the note
  \<^verbatim>\<open>No roads found nearby\<close>. With no OCR road-label candidate, \<^verbatim>\<open>find_orientation\<close> fails
  with a \<^verbatim>\<open>ValueError\<close>: \<^verbatim>\<open>No road label detected\<close> when the house label was found, and
  the error of the missing house label otherwise. Neither returns a bearing value.
\<close>

theorem no_candidates_result:
  "nearest_road_bearing_from_address to_3857_xy dfun nearest lonlat [] =
     Inr \<lparr>lat = snd lonlat, lon = fst lonlat, bearing_deg = None, compass = None,
          distance_to_road_m = None, note_str = Some ''No roads found nearby''\<rparr> \<and>
   (filter (\<lambda>tp. length (fst tp) > 4) texts = [] \<longrightarrow>
      find_orientation texts target_label =
        Inl (ValueError (if filter (\<lambda>tp. fst tp = target_label) texts = []
                         then ''Could not find label '' @ target_label
                         else ''No road label detected'')))"
  using find_orientation_no_road [of texts target_label]
  by (simp add: nearest_road_bearing_from_address_def Let_def)

theorem no_candidates_result_counterexample:
  "nearest_road_bearing_from_address id distance nearest_point (145, - 38) [] =
     Inr \<lparr>lat = - 38, lon = 145, bearing_deg = None, compass = None,
          distance_to_road_m = None, note_str = Some ''No roads found nearby''\<rparr>"
  by (simp add: nearest_road_bearing_from_address_def Let_def)

theorem no_candidates_result_witness:
  "filter (\<lambda>tp. length (fst tp) > 4) [(''13'', (10, 20)), (''Rd'', (5, 5))] = [] \<and>
   find_orientation [(''13'', (10, 20)), (''Rd'', (5, 5))] ''13''
     = Inl (ValueError ''No road label detected'') \<and>
   find_orientation [(''13'', (10, 20)), (''Rd'', (5, 5))] ''7''
     = Inl (ValueError ''Could not find label 7'')"
  using no_candidates_result [where texts = "[(''13'', (10, 20)), (''Rd'', (5, 5))]"
      and target_label = "''13''"]
    no_candidates_result [where texts = "[(''13'', (10, 20)), (''Rd'', (5, 5))]"
      and target_label = "''7''"]
  by simp

subsection \<open>Two equidistant roads\<close>

lemma map_line_id [simp]: "map_line id l = l"
  by (cases l) simp

theorem nearest_candidate_first_minimum_witness:
  "[LineString (5, 5) (5, - 5) [], LineString (- 5, 5) (- 5, - 5) []] \<noteq> [] \<and>
   (\<exists>pre best post.
      map (map_line id) [LineString (5, 5) (5, - 5) [], LineString (- 5, 5) (- 5, - 5) []]
        = pre @ best # post \<and>
      nearest_road_loop id distance (0, 0)
        [LineString (5, 5) (5, - 5) [], LineString (- 5, 5) (- 5, - 5) []] (None, None)
        = (Some best, Some (distance (0, 0) best)) \<and>
      (\<forall>l\<in>set pre. distance (0, 0) best < distance (0, 0) l) \<and>
      (\<forall>l\<in>set post. distance (0, 0) best \<le> distance (0, 0) l)) \<and>
   nearest_road_loop id distance (0, 0)
     [LineString (5, 5) (5, - 5) [], LineString (- 5, 5) (- 5, - 5) []] (None, None)
     = (Some (LineString (5, 5) (5, - 5) []), Some 5)"
proof -
  have nonempty: "[LineString (5, 5) (5, - 5) [], LineString (- 5, 5) (- 5, - 5) []] \<noteq> []"
    by simp
  have other: "segment_distance (0, 0) (- 5, 5) (- 5, - 5) = 5"
    by (simp add: segment_distance_def foot_param_def along_def subtract_def dot_def euclid_def)
  have run: "nearest_road_loop id distance (0, 0)
     [LineString (5, 5) (5, - 5) [], LineString (- 5, 5) (- 5, - 5) []] (None, None)
     = (Some (LineString (5, 5) (5, - 5) []), Some 5)"
    by (simp add: below_best_def segment_example other)
  from nearest_candidate_first_minimum
    [where roads = "[LineString (5, 5) (5, - 5) [], LineString (- 5, 5) (- 5, - 5) []]"
       and ?to_3857_xy = id and dfun = distance and p = "(0, 0)"
       and c = "LineString (5, 5) (5, - 5) []" and cs = "[]" and key = "distance (0, 0)"]
    nonempty run
  show ?thesis by blast
qed

end
